theory Spec2Isabelle
  imports Complex_Main "HOL-Library.Sublist"
begin

section \<open>Chat context management of chat-with-youtube\<close>

text \<open>
  A shallow embedding of \<^verbatim>\<open>src/lib/chat-context.ts\<close>, of the chat turn of
  \<^verbatim>\<open>src/app/api/chat/route.ts\<close> and of the transcript renderer of
  \<^verbatim>\<open>src/lib/youtube.ts\<close>. JavaScript strings are modelled as \<^typ>\<open>string\<close>
  (one \<^typ>\<open>char\<close> per code unit, ASCII), exceptions as values of \<open>error + 'a\<close>,
  the estimated token counts, which are non-negative integers, as \<^typ>\<open>nat\<close>, a token
  budget as an \<^typ>\<open>int\<close>, and a point in time as its number of milliseconds since the
  epoch.
\<close>

subsection \<open>Data model\<close>

datatype error = TypeError | SyntaxError

datatype role = System | User | Assistant

text \<open>The \<^verbatim>\<open>{ role, content }\<close> objects handed to the completion service.\<close>

record ContextMessage =
  role :: role
  content :: string

subsection \<open>Token budgeter\<close>

text \<open>\<^verbatim>\<open>Math.ceil(content.length / 4)\<close>\<close>

definition estimateTokenCount :: "string \<Rightarrow> nat" where
  "estimateTokenCount c = (length c + 3) div 4"

text \<open>\<^verbatim>\<open>messages.reduce((total, msg) => total + estimateTokenCount(msg.content), 0)\<close>\<close>

definition calculateContextTokens :: "ContextMessage list \<Rightarrow> nat" where
  "calculateContextTokens messages =
     foldl (\<lambda>total msg. total + estimateTokenCount (content msg)) 0 messages"

text \<open>
  The \<^verbatim>\<open>while\<close> loop of \<^verbatim>\<open>trimContextToTokenLimit\<close>: as long as the total is
  over the limit and more than one conversation message is left, \<^verbatim>\<open>shift()\<close> removes
  the oldest one and the total is recomputed.
\<close>

function trimLoop :: "ContextMessage \<Rightarrow> ContextMessage list \<Rightarrow> int \<Rightarrow> ContextMessage list" where
  "trimLoop systemMessage trimmedMessages maxTokens =
     (if int (estimateTokenCount (content systemMessage) + calculateContextTokens trimmedMessages)
           > maxTokens \<and> length trimmedMessages > 1
      then trimLoop systemMessage (tl trimmedMessages) maxTokens
      else trimmedMessages)"
  by pat_completeness auto
termination
  by (relation "measure (\<lambda>(s, t, m). length t)") auto

declare trimLoop.simps [simp del]

text \<open>
  \<^verbatim>\<open>trimContextToTokenLimit(messages, maxTokens)\<close>. On an empty array that is over
  a (negative) limit, \<^verbatim>\<open>messages[0]\<close> is \<^verbatim>\<open>undefined\<close> and reading its
  \<^verbatim>\<open>content\<close> throws a TypeError.
\<close>

definition trimContextToTokenLimit :: "ContextMessage list \<Rightarrow> int \<Rightarrow> error + ContextMessage list" where
  "trimContextToTokenLimit messages maxTokens =
     (if int (calculateContextTokens messages) \<le> maxTokens then Inr messages
      else (case messages of
              [] \<Rightarrow> Inl TypeError
            | systemMessage # conversationMessages \<Rightarrow>
                Inr (systemMessage # trimLoop systemMessage conversationMessages maxTokens)))"

subsection \<open>JavaScript numbers and strings\<close>

text \<open>
  The values of the \<^verbatim>\<open>number\<close> type that the timestamp code can see: the two
  infinities, NaN and the finite values, taken as exact reals (the rounding of
  floating-point division is not modelled).
\<close>

datatype jsnum = NaN | PosInfinity | NegInfinity | Finite real

text \<open>\<^verbatim>\<open>x / d\<close> and \<^verbatim>\<open>x % d\<close> for a positive constant \<open>d\<close>; the remainder has the
  sign of the dividend.\<close>

definition jsTrunc :: "real \<Rightarrow> int" where
  "jsTrunc q = (if q < 0 then - \<lfloor>- q\<rfloor> else \<lfloor>q\<rfloor>)"

fun jsDiv :: "jsnum \<Rightarrow> real \<Rightarrow> jsnum" where
  "jsDiv (Finite q) d = Finite (q / d)"
| "jsDiv x d = x"

fun jsRem :: "jsnum \<Rightarrow> real \<Rightarrow> jsnum" where
  "jsRem (Finite q) d = Finite (q - d * of_int (jsTrunc (q / d)))"
| "jsRem x d = NaN"

fun jsAdd :: "jsnum \<Rightarrow> jsnum \<Rightarrow> jsnum" where
  "jsAdd (Finite a) (Finite b) = Finite (a + b)"
| "jsAdd (Finite a) y = y"
| "jsAdd NaN y = NaN"
| "jsAdd PosInfinity y = (if y = NaN \<or> y = NegInfinity then NaN else PosInfinity)"
| "jsAdd NegInfinity y = (if y = NaN \<or> y = PosInfinity then NaN else NegInfinity)"

fun mathFloor :: "jsnum \<Rightarrow> jsnum" where
  "mathFloor (Finite q) = Finite (of_int \<lfloor>q\<rfloor>)"
| "mathFloor x = x"

fun greaterThanZero :: "jsnum \<Rightarrow> bool" where
  "greaterThanZero (Finite q) = (0 < q)"
| "greaterThanZero PosInfinity = True"
| "greaterThanZero x = False"

function digits :: "nat \<Rightarrow> string" where
  "digits n = (if n < 10 then [''0123456789'' ! n]
               else digits (n div 10) @ [''0123456789'' ! (n mod 10)])"
  by pat_completeness auto
termination
  by (relation "measure (\<lambda>n. n)") auto

declare digits.simps [simp del]

definition intToString :: "int \<Rightarrow> string" where
  "intToString i = (if i < 0 then ''-'' @ digits (nat (- i)) else digits (nat i))"

text \<open>\<^verbatim>\<open>toString()\<close> of a result of \<^verbatim>\<open>Math.floor\<close> (below \<open>10\<^sup>2\<^sup>1\<close> in
  magnitude, where JavaScript prints all digits).\<close>

fun toStringNum :: "jsnum \<Rightarrow> string" where
  "toStringNum NaN = ''NaN''"
| "toStringNum PosInfinity = ''Infinity''"
| "toStringNum NegInfinity = ''-Infinity''"
| "toStringNum (Finite q) = intToString \<lfloor>q\<rfloor>"

definition padStart :: "nat \<Rightarrow> char \<Rightarrow> string \<Rightarrow> string" where
  "padStart n c s = replicate (n - length s) c @ s"

text \<open>\<^verbatim>\<open>toFixed(3)\<close>: the nearest multiple of \<open>1/1000\<close>, the larger one on a tie.\<close>

definition fixed3 :: "real \<Rightarrow> string" where
  "fixed3 q = (let n = nat \<lfloor>(q * 2000 + 1) / 2\<rfloor>
               in digits (n div 1000) @ ''.'' @ padStart 3 (CHR ''0'') (digits (n mod 1000)))"

fun toFixed3 :: "jsnum \<Rightarrow> string" where
  "toFixed3 NaN = ''NaN''"
| "toFixed3 PosInfinity = ''Infinity''"
| "toFixed3 NegInfinity = ''-Infinity''"
| "toFixed3 (Finite q) = (if q < 0 then ''-'' @ fixed3 (- q) else fixed3 q)"

definition newline :: string where
  "newline = [CHR 0x0A]"

fun join :: "string \<Rightarrow> string list \<Rightarrow> string" where
  "join sep [] = []"
| "join sep [x] = x"
| "join sep (x # y # ys) = x @ sep @ join sep (y # ys)"

text \<open>The characters matched by \<^verbatim>\<open>\s\<close> and removed by \<^verbatim>\<open>trim()\<close>, within ASCII.\<close>

definition isSpace :: "char \<Rightarrow> bool" where
  "isSpace c = (c \<in> set [CHR '' '', CHR 0x09, CHR 0x0A, CHR 0x0B, CHR 0x0C, CHR 0x0D])"

definition trimString :: "string \<Rightarrow> string" where
  "trimString s = rev (dropWhile isSpace (rev (dropWhile isSpace s)))"

definition lowerChar :: "char \<Rightarrow> char" where
  "lowerChar c = (case map_of (zip ''ABCDEFGHIJKLMNOPQRSTUVWXYZ'' ''abcdefghijklmnopqrstuvwxyz'') c of
                    Some d \<Rightarrow> d | None \<Rightarrow> c)"

definition toLowerCase :: "string \<Rightarrow> string" where
  "toLowerCase s = map lowerChar s"

text \<open>\<^verbatim>\<open>text.includes(q)\<close>\<close>

fun includesStr :: "string \<Rightarrow> string \<Rightarrow> bool" where
  "includesStr [] q = (q = [])"
| "includesStr (c # cs) q = (prefix q (c # cs) \<or> includesStr cs q)"

text \<open>\<^verbatim>\<open>s.replace(a, b)\<close> with a one-character string \<open>a\<close>: the first occurrence only.\<close>

fun replaceFirst :: "char \<Rightarrow> char \<Rightarrow> string \<Rightarrow> string" where
  "replaceFirst a b [] = []"
| "replaceFirst a b (c # cs) = (if c = a then b # cs else c # replaceFirst a b cs)"

text \<open>\<^verbatim>\<open>s.split(/\s+/)\<close>: the pieces between maximal runs of whitespace, with an empty
  first or last piece when the string starts or ends with whitespace.\<close>

function splitWhitespace :: "string \<Rightarrow> string \<Rightarrow> string list" where
  "splitWhitespace piece [] = [piece]"
| "splitWhitespace piece (c # cs) =
     (if isSpace c then piece # splitWhitespace [] (dropWhile isSpace cs)
      else splitWhitespace (piece @ [c]) cs)"
  by pat_completeness auto
termination
  by (relation "measure (\<lambda>(piece, s). length s)")
     (auto simp: length_dropWhile_le less_Suc_eq_le)

subsection \<open>Sessions\<close>

text \<open>\<^verbatim>\<open>TranscriptItem\<close>: the caption scraper delivers \<open>start\<close> and \<open>dur\<close> as strings;
  \<open>itemText\<close> is its field \<^verbatim>\<open>text\<close>.\<close>

record TranscriptItem =
  start :: string
  dur :: string
  itemText :: string

text \<open>\<^verbatim>\<open>ChatMessage\<close>, with \<open>messageId\<close>, \<open>messageVideoId\<close> and
  \<open>messageVideoTitle\<close> for its fields \<^verbatim>\<open>id\<close>, \<^verbatim>\<open>videoId\<close> and
  \<^verbatim>\<open>videoTitle\<close>.\<close>

record ChatMessage = ContextMessage +
  messageId :: string
  timestamp :: int
  messageVideoId :: "string option"
  messageVideoTitle :: "string option"

subsection \<open>Context builder\<close>

definition MAX_CONTEXT_MESSAGES :: nat where
  "MAX_CONTEXT_MESSAGES = 20"

definition MAX_TRANSCRIPT_CHARS :: nat where
  "MAX_TRANSCRIPT_CHARS = 50000"

text \<open>\<^verbatim>\<open>OPENAI_CONFIG.SYSTEM_PROMPT\<close> of \<^verbatim>\<open>src/lib/openai.ts\<close>.\<close>

definition SYSTEM_PROMPT :: string where
  "SYSTEM_PROMPT = join newline
     [''You are an AI assistant that helps users understand and discuss YouTube videos based on their transcripts. '',
      [],
      ''Your capabilities:'',
      ''- Answer questions about the video content'',
      ''- Summarize key points from the transcript'',
      ''- Explain complex topics mentioned in the video'',
      ''- Provide timestamps for specific topics when possible'',
      ''- Help users find relevant information within the video'',
      [],
      ''Guidelines:'',
      ''- Base your responses strictly on the provided transcript'',
      ''- If information isn'' @ [CHR 0x27] @ ''t in the transcript, clearly state that'',
      ''- Provide specific quotes when relevant'',
      ''- Be helpful, accurate, and conversational'',
      ''- If asked about timestamps, reference the transcript timing when available'']"

text \<open>
  The \<^verbatim>\<open>M:SS\<close> stamp of one transcript line. \<^verbatim>\<open>parseFloat\<close> is the built-in of the
  language; it is a parameter of the model.
\<close>

definition lineTimestamp :: "(string \<Rightarrow> jsnum) \<Rightarrow> TranscriptItem \<Rightarrow> string" where
  "lineTimestamp parseFloat item =
     (let startTime = parseFloat (start item);
          minutes = mathFloor (jsDiv startTime 60);
          seconds = mathFloor (jsRem startTime 60)
      in toStringNum minutes @ '':'' @ padStart 2 (CHR ''0'') (toStringNum seconds))"

definition truncationMarker :: string where
  "truncationMarker = newline @ newline @ ''[... transcript truncated for length ...]''"

text \<open>The value of \<^verbatim>\<open>formattedTranscript\<close> before the length check.\<close>

definition renderTranscript :: "(string \<Rightarrow> jsnum) \<Rightarrow> TranscriptItem list \<Rightarrow> string" where
  "renderTranscript parseFloat transcript =
     join newline (map (\<lambda>item. ''['' @ lineTimestamp parseFloat item @ ''] '' @ itemText item) transcript)"

definition formatTranscriptContext :: "(string \<Rightarrow> jsnum) \<Rightarrow> TranscriptItem list \<Rightarrow> string" where
  "formatTranscriptContext parseFloat transcript =
     (let formattedTranscript = renderTranscript parseFloat transcript
      in if length formattedTranscript > MAX_TRANSCRIPT_CHARS
         then (let truncatePoint = MAX_TRANSCRIPT_CHARS - 100
               in take truncatePoint formattedTranscript @ truncationMarker)
         else formattedTranscript)"

subsection \<open>Transcript formatter\<close>

text \<open>\<^verbatim>\<open>src/lib/youtube.ts\<close>. The fields \<^verbatim>\<open>start\<close>, \<^verbatim>\<open>end\<close>, \<^verbatim>\<open>duration\<close> and
  \<^verbatim>\<open>text\<close> of a \<^verbatim>\<open>FormattedTranscriptItem\<close> are named \<open>startSeconds\<close>,
  \<open>endSeconds\<close>, \<open>durationSeconds\<close> and \<open>formattedText\<close> here.\<close>

datatype ResponseFormat = DETAILED | SIMPLE | TEXT_ONLY | SRT | VTT | SEGMENTS

record FormattedTranscriptItem =
  startSeconds :: jsnum
  endSeconds :: jsnum
  durationSeconds :: jsnum
  formattedText :: string
  startTime :: "string option"
  endTime :: "string option"

definition formatTime :: "jsnum \<Rightarrow> string" where
  "formatTime seconds =
     (let hours = mathFloor (jsDiv seconds 3600);
          minutes = mathFloor (jsDiv (jsRem seconds 3600) 60);
          secs = jsRem seconds 60
      in if greaterThanZero hours
         then padStart 2 (CHR ''0'') (toStringNum hours) @ '':''
              @ padStart 2 (CHR ''0'') (toStringNum minutes) @ '':''
              @ padStart 6 (CHR ''0'') (toFixed3 secs)
         else padStart 2 (CHR ''0'') (toStringNum minutes) @ '':''
              @ padStart 6 (CHR ''0'') (toFixed3 secs))"

definition formatTranscriptData ::
    "(string \<Rightarrow> jsnum) \<Rightarrow> TranscriptItem list \<Rightarrow> FormattedTranscriptItem list" where
  "formatTranscriptData parseFloat rawTranscript =
     map (\<lambda>item.
            (let startNum = parseFloat (start item);
                 durationNum = parseFloat (dur item);
                 endNum = jsAdd startNum durationNum
             in \<lparr>startSeconds = startNum, endSeconds = endNum, durationSeconds = durationNum,
                 formattedText =
                   trimString (map (\<lambda>c. if c = CHR 0x0A then CHR '' '' else c) (itemText item)),
                 startTime = Some (formatTime startNum),
                 endTime = Some (formatTime endNum)\<rparr>))
         rawTranscript"

text \<open>The value of \<^verbatim>\<open>formatTranscriptOutput\<close>: a string, or an array of objects.\<close>

datatype rendering =
    Text string
  | SimpleItems "(string \<times> jsnum \<times> jsnum) list"
  | SegmentItems "(nat \<times> jsnum \<times> jsnum \<times> jsnum \<times> string \<times> nat) list"
  | Items "FormattedTranscriptItem list"

text \<open>An optional time string inside a template literal, without and with
  \<^verbatim>\<open>?.replace('.', ',')\<close>; a missing one prints as \<^verbatim>\<open>undefined\<close>.\<close>

definition timeString :: "string option \<Rightarrow> string" where
  "timeString t = (case t of None \<Rightarrow> ''undefined'' | Some s \<Rightarrow> s)"

definition commaTimeString :: "string option \<Rightarrow> string" where
  "commaTimeString t =
     (case t of None \<Rightarrow> ''undefined'' | Some s \<Rightarrow> replaceFirst (CHR ''.'') (CHR '','') s)"

definition formatTranscriptOutput :: "FormattedTranscriptItem list \<Rightarrow> ResponseFormat \<Rightarrow> rendering" where
  "formatTranscriptOutput transcript fmt =
     (case fmt of
        TEXT_ONLY \<Rightarrow> Text (join '' '' (map formattedText transcript))
      | SIMPLE \<Rightarrow>
          SimpleItems (map (\<lambda>item. (formattedText item, startSeconds item, durationSeconds item))
                           transcript)
      | SRT \<Rightarrow>
          Text (join newline
                  (map (\<lambda>(index, item).
                          digits (index + 1) @ newline
                          @ commaTimeString (startTime item) @ '' --> ''
                          @ commaTimeString (endTime item) @ newline
                          @ formattedText item @ newline)
                       (enumerate 0 transcript)))
      | VTT \<Rightarrow>
          (let vttHeader = ''WEBVTT'' @ newline @ newline;
               vttContent =
                 join newline
                   (map (\<lambda>item. timeString (startTime item) @ '' --> ''
                                 @ timeString (endTime item) @ newline
                                 @ formattedText item @ newline)
                        transcript)
           in Text (vttHeader @ vttContent))
      | SEGMENTS \<Rightarrow>
          SegmentItems
            (map (\<lambda>(index, item).
                    (index + 1, startSeconds item, endSeconds item, durationSeconds item,
                     formattedText item, Suc (count_list (formattedText item) (CHR '' ''))))
                 (enumerate 0 transcript))
      | DETAILED \<Rightarrow> Items transcript)"

subsection \<open>Relevance scorer\<close>

text \<open>
  \<^verbatim>\<open>(segmentText.match(new RegExp(word, 'g')) || []).length\<close> belongs to the language,
  not to the repository: it is the parameter \<open>matchCount\<close> of the model, which gives
  the number of matches or the error thrown by \<^verbatim>\<open>new RegExp\<close>. The \<^verbatim>\<open>forEach\<close> over
  the query words, with \<open>score\<close> as its state:
\<close>

fun countKeywordMatches ::
    "(string \<Rightarrow> string \<Rightarrow> error + nat) \<Rightarrow> string list \<Rightarrow> string \<Rightarrow> nat \<Rightarrow> error + nat" where
  "countKeywordMatches matchCount [] segmentText score = Inr score"
| "countKeywordMatches matchCount (word # queryWords) segmentText score =
     (case matchCount word segmentText of
        Inl e \<Rightarrow> Inl e
      | Inr matches \<Rightarrow> countKeywordMatches matchCount queryWords segmentText (score + matches))"

text \<open>The score of one segment: the body of the \<^verbatim>\<open>map\<close> callback.\<close>

definition segmentScore ::
    "(string \<Rightarrow> string \<Rightarrow> error + nat) \<Rightarrow> string \<Rightarrow> string list \<Rightarrow> TranscriptItem \<Rightarrow> error + nat" where
  "segmentScore matchCount queryLower queryWords segment =
     (let segmentText = toLowerCase (itemText segment)
      in case countKeywordMatches matchCount queryWords segmentText 0 of
           Inl e \<Rightarrow> Inl e
         | Inr score \<Rightarrow> Inr (if includesStr segmentText queryLower then score + 5 else score))"

record ScoredSegment =
  segment :: TranscriptItem
  score :: nat
  index :: nat

text \<open>\<^verbatim>\<open>transcript.map((segment, index) => ...)\<close>; an exception of a callback ends the
  whole call.\<close>

fun scoreSegments ::
    "(string \<Rightarrow> string \<Rightarrow> error + nat) \<Rightarrow> string \<Rightarrow> string list \<Rightarrow> TranscriptItem list \<Rightarrow> nat
       \<Rightarrow> error + ScoredSegment list" where
  "scoreSegments matchCount queryLower queryWords [] i = Inr []"
| "scoreSegments matchCount queryLower queryWords (seg # segs) i =
     (case segmentScore matchCount queryLower queryWords seg of
        Inl e \<Rightarrow> Inl e
      | Inr sc \<Rightarrow>
          (case scoreSegments matchCount queryLower queryWords segs (Suc i) of
             Inl e \<Rightarrow> Inl e
           | Inr scored \<Rightarrow> Inr (\<lparr>segment = seg, score = sc, index = i\<rparr> # scored)))"

text \<open>
  \<^verbatim>\<open>findRelevantTranscriptSegments(query, transcript, maxSegments)\<close>, with
  \<open>maxSegments\<close> a count. \<^verbatim>\<open>Array.prototype.sort\<close> is stable, as \<^const>\<open>sort_key\<close>
  is; sorting by \<^verbatim>\<open>b.score - a.score\<close> is sorting by descending score.
  The query words are \<^verbatim>\<open>queryLower.split(/\s+/).filter(word => word.length > 2)\<close>.
\<close>

definition queryWordsOf :: "string \<Rightarrow> string list" where
  "queryWordsOf queryLower = filter (\<lambda>word. length word > 2) (splitWhitespace [] queryLower)"

definition findRelevantTranscriptSegments ::
    "(string \<Rightarrow> string \<Rightarrow> error + nat) \<Rightarrow> string \<Rightarrow> TranscriptItem list \<Rightarrow> nat
       \<Rightarrow> error + TranscriptItem list" where
  "findRelevantTranscriptSegments matchCount query transcript maxSegments =
     (let queryLower = toLowerCase query;
          queryWords = queryWordsOf queryLower
      in if queryWords = [] then Inr (take maxSegments transcript)
         else (case scoreSegments matchCount queryLower queryWords transcript 0 of
                 Inl e \<Rightarrow> Inl e
               | Inr scoredSegments \<Rightarrow>
                   Inr (map segment
                          (sort_key index
                             (take maxSegments
                                (sort_key (\<lambda>item. - int (score item))
                                   (filter (\<lambda>item. score item > 0) scoredSegments)))))))"

subsection \<open>A fragment of the regular expressions of the language\<close>

text \<open>
  What \<^verbatim>\<open>text.match(new RegExp(word, 'g'))\<close> does for the patterns made of ordinary
  characters, the wildcard \<^verbatim>\<open>.\<close> and the greedy optional mark \<^verbatim>\<open>?\<close> after a
  character or wildcard. A pattern that starts with \<^verbatim>\<open>?\<close> is a syntax error
  (nothing to repeat). Patterns with any other special character are outside the
  fragment.
\<close>

datatype atom = Lit char | AnyChar

definition atomOf :: "char \<Rightarrow> atom option" where
  "atomOf c = (if c = CHR ''.'' then Some AnyChar
               else if c \<in> set (CHR 0x5C # ''^$*+?()[]{}|'') then None
               else Some (Lit c))"

definition atomMatches :: "atom \<Rightarrow> char \<Rightarrow> bool" where
  "atomMatches a c = (case a of Lit d \<Rightarrow> c = d | AnyChar \<Rightarrow> c \<noteq> CHR 0x0A \<and> c \<noteq> CHR 0x0D)"

definition consPattern ::
    "atom \<times> bool \<Rightarrow> (error + (atom \<times> bool) list) option \<Rightarrow> (error + (atom \<times> bool) list) option" where
  "consPattern a r = (case r of None \<Rightarrow> None
                      | Some (Inl e) \<Rightarrow> Some (Inl e)
                      | Some (Inr p) \<Rightarrow> Some (Inr (a # p)))"

text \<open>The pattern as a list of atoms, each with the flag of being optional; \<open>None\<close>
  outside the fragment.\<close>

fun parsePattern :: "string \<Rightarrow> (error + (atom \<times> bool) list) option" where
  "parsePattern [] = Some (Inr [])"
| "parsePattern [c] =
     (if c = CHR ''?'' then Some (Inl SyntaxError)
      else (case atomOf c of None \<Rightarrow> None | Some a \<Rightarrow> Some (Inr [(a, False)])))"
| "parsePattern (c # d # cs) =
     (if c = CHR ''?'' then Some (Inl SyntaxError)
      else (case atomOf c of
              None \<Rightarrow> None
            | Some a \<Rightarrow>
                if d = CHR ''?''
                then (if cs \<noteq> [] \<and> hd cs = CHR ''?'' then None
                      else consPattern (a, True) (parsePattern cs))
                else consPattern (a, False) (parsePattern (d # cs))))"

text \<open>The length of the match of the pattern at the start of the string, by
  backtracking: an optional atom is tried first, then left out.\<close>

fun matchHere :: "(atom \<times> bool) list \<Rightarrow> string \<Rightarrow> nat option" where
  "matchHere [] s = Some 0"
| "matchHere ((a, optional) # p) s =
     (case (case s of
              [] \<Rightarrow> None
            | c # cs \<Rightarrow> if atomMatches a c then map_option Suc (matchHere p cs) else None) of
        Some n \<Rightarrow> Some n
      | None \<Rightarrow> if optional then matchHere p s else None)"

text \<open>
  The number of matches of a global search: the leftmost match from the current
  position on is counted, and the search goes on behind it (one character further
  after an empty match). \<open>skip\<close> counts the characters still covered by the last match.
\<close>

fun countFrom :: "(atom \<times> bool) list \<Rightarrow> nat \<Rightarrow> string \<Rightarrow> nat" where
  "countFrom p skip [] =
     (if skip = 0 then (case matchHere p [] of Some n \<Rightarrow> 1 | None \<Rightarrow> 0) else 0)"
| "countFrom p skip (c # cs) =
     (if skip > 0 then countFrom p (skip - 1) cs
      else (case matchHere p (c # cs) of
              Some n \<Rightarrow> 1 + countFrom p (n - 1) cs
            | None \<Rightarrow> countFrom p 0 cs))"

definition regexMatchCount :: "string \<Rightarrow> string \<Rightarrow> (error + nat) option" where
  "regexMatchCount word s =
     (case parsePattern word of
        None \<Rightarrow> None
      | Some (Inl e) \<Rightarrow> Some (Inl e)
      | Some (Inr p) \<Rightarrow> Some (Inr (countFrom p 0 s)))"

text \<open>An engine that is \<^const>\<open>regexMatchCount\<close> on the fragment; its values outside the
  fragment are left open.\<close>

definition fragmentMatchCount :: "string \<Rightarrow> string \<Rightarrow> error + nat" where
  "fragmentMatchCount word s = the (regexMatchCount word s)"

text \<open>
  The score as the specification states it: for each query token the number of
  positions of the segment text at which the token occurs, plus 5 when the whole query
  occurs in it.
\<close>

fun occurrences :: "string \<Rightarrow> string \<Rightarrow> nat" where
  "occurrences token [] = (if token = [] then 1 else 0)"
| "occurrences token (c # cs) = (if prefix token (c # cs) then 1 else 0) + occurrences token cs"

definition statedScore :: "string \<Rightarrow> string list \<Rightarrow> string \<Rightarrow> nat" where
  "statedScore queryLower queryWords segmentText =
     sum_list (map (\<lambda>token. occurrences token segmentText) queryWords)
     + (if includesStr segmentText queryLower then 5 else 0)"

text \<open>\<^verbatim>\<open>ChatSession\<close>; \<open>sessionId\<close> is its field \<^verbatim>\<open>id\<close>.\<close>

record ChatSession =
  sessionId :: string
  videoId :: string
  videoTitle :: string
  videoUrl :: string
  transcript :: "TranscriptItem list"
  messages :: "ChatMessage list"
  createdAt :: int
  updatedAt :: int

definition systemContent :: "(string \<Rightarrow> jsnum) \<Rightarrow> ChatSession \<Rightarrow> string" where
  "systemContent parseFloat session =
     SYSTEM_PROMPT @ newline @ newline
     @ ''Video Information:'' @ newline
     @ ''- Title: '' @ videoTitle session @ newline
     @ ''- URL: '' @ videoUrl session @ newline
     @ ''- Video ID: '' @ videoId session @ newline
     @ ''- Total Segments: '' @ digits (length (transcript session)) @ newline
     @ newline
     @ ''Transcript:'' @ newline
     @ formatTranscriptContext parseFloat (transcript session)"

text \<open>\<^verbatim>\<open>xs.slice(-n)\<close>: the last \<open>n\<close> elements, all of them when there are fewer.\<close>

definition sliceLast :: "nat \<Rightarrow> 'a list \<Rightarrow> 'a list" where
  "sliceLast n xs = drop (length xs - n) xs"

definition buildConversationContext ::
    "(string \<Rightarrow> jsnum) \<Rightarrow> ChatSession \<Rightarrow> bool \<Rightarrow> ContextMessage list" where
  "buildConversationContext parseFloat session includeSystemPrompt =
     (let systemPart =
            (if includeSystemPrompt
             then [\<lparr>role = System, content = systemContent parseFloat session\<rparr>]
             else []);
          recentMessages =
            map (\<lambda>msg. \<lparr>role = role msg, content = content msg\<rparr>)
                (sliceLast MAX_CONTEXT_MESSAGES (messages session))
      in systemPart @ recentMessages)"

subsection \<open>Session lifecycle\<close>

text \<open>
  The session store is a JavaScript \<^verbatim>\<open>Map\<close>: its entries in insertion order, one per
  key. \<^verbatim>\<open>sessions.delete(key)\<close>:
\<close>

definition deleteSession :: "string \<Rightarrow> (string \<times> ChatSession) list \<Rightarrow> (string \<times> ChatSession) list" where
  "deleteSession key sessions = filter (\<lambda>entry. fst entry \<noteq> key) sessions"

text \<open>
  The \<^verbatim>\<open>for\<close> loop of \<^verbatim>\<open>cleanupOldSessions\<close> over the entries still to be visited,
  with the store and \<^verbatim>\<open>cleanedCount\<close> as state. \<open>now\<close> is the clock reading taken
  before the loop.
\<close>

fun cleanupLoop ::
    "(string \<times> ChatSession) list \<Rightarrow> int \<Rightarrow> int \<Rightarrow> (string \<times> ChatSession) list \<Rightarrow> nat
       \<Rightarrow> (string \<times> ChatSession) list \<times> nat" where
  "cleanupLoop [] now maxAge sessions cleanedCount = (sessions, cleanedCount)"
| "cleanupLoop ((key, session) # entries) now maxAge sessions cleanedCount =
     (let age = now - updatedAt session
      in if age > maxAge
         then cleanupLoop entries now maxAge (deleteSession key sessions) (cleanedCount + 1)
         else cleanupLoop entries now maxAge sessions cleanedCount)"

definition cleanupOldSessions ::
    "(string \<times> ChatSession) list \<Rightarrow> int \<Rightarrow> int \<Rightarrow> (string \<times> ChatSession) list \<times> nat" where
  "cleanupOldSessions sessions maxAge now = cleanupLoop sessions now maxAge sessions 0"

text \<open>\<^verbatim>\<open>validateChatSession\<close>: on a typed session only the two identifiers can be
  missing (empty); the arrays and the creation date are there by type.\<close>

definition validateChatSession :: "ChatSession \<Rightarrow> bool \<times> string list" where
  "validateChatSession session =
     (let errors = (if sessionId session = [] then [''Session ID is missing or invalid''] else [])
                 @ (if videoId session = [] then [''Video ID is missing or invalid''] else [])
      in (errors = [], errors))"

text \<open>
  One chat turn of the \<^verbatim>\<open>POST\<close> handler of \<^verbatim>\<open>src/app/api/chat/route.ts\<close>, from the
  creation of the user message on. The completion service is the parameter
  \<open>completion\<close> (\<open>None\<close> when the call throws); \<open>userId\<close>, \<open>assistantId\<close> are the
  fresh identifiers and \<open>t1\<close>, \<open>t2\<close>, \<open>t3\<close> the three clock readings of the turn.
\<close>

datatype turnResult = InvalidSession "string list" | ContextError error | CompletionFailed
  | Replied ChatMessage

definition chatTurn ::
    "(string \<Rightarrow> jsnum) \<Rightarrow> (ContextMessage list \<Rightarrow> string option) \<Rightarrow> ChatSession \<Rightarrow> string
       \<Rightarrow> string \<Rightarrow> int \<Rightarrow> string \<Rightarrow> int \<Rightarrow> int \<Rightarrow> ChatSession \<times> turnResult" where
  "chatTurn parseFloat completion session message userId t1 assistantId t2 t3 =
     (let userMessage = \<lparr>role = User, content = message, messageId = userId, timestamp = t1,
                          messageVideoId = Some (videoId session),
                          messageVideoTitle = Some (videoTitle session)\<rparr>;
          session1 = session\<lparr>messages := messages session @ [userMessage]\<rparr>;
          validation = validateChatSession session1
      in if \<not> fst validation then (session1, InvalidSession (snd validation))
         else (case trimContextToTokenLimit (buildConversationContext parseFloat session1 True) 12000 of
                 Inl e \<Rightarrow> (session1, ContextError e)
               | Inr trimmedMessages \<Rightarrow>
                   (case completion trimmedMessages of
                      None \<Rightarrow> (session1, CompletionFailed)
                    | Some assistantContent \<Rightarrow>
                        if assistantContent = [] then (session1, CompletionFailed)
                        else (let assistantMessage =
                                    \<lparr>role = Assistant, content = assistantContent,
                                     messageId = assistantId, timestamp = t2,
                                     messageVideoId = Some (videoId session1),
                                     messageVideoTitle = Some (videoTitle session1)\<rparr>
                              in (session1\<lparr>messages := messages session1 @ [assistantMessage],
                                           updatedAt := t3\<rparr>,
                                  Replied assistantMessage)))))"

subsection \<open>Example data\<close>

definition exSystem :: ContextMessage where
  "exSystem = \<lparr>role = System, content = ''You are an assistant.''\<rparr>"

definition exQuestion1 :: ContextMessage where
  "exQuestion1 = \<lparr>role = User, content = ''What is this video about?''\<rparr>"

definition exAnswer1 :: ContextMessage where
  "exAnswer1 = \<lparr>role = Assistant, content = ''It is about cats.''\<rparr>"

definition exQuestion2 :: ContextMessage where
  "exQuestion2 = \<lparr>role = User, content = ''And dogs?''\<rparr>"

definition exConversation :: "ContextMessage list" where
  "exConversation = [exQuestion1, exAnswer1, exQuestion2]"

text \<open>The values of \<^verbatim>\<open>parseFloat\<close> on the numeric strings of the examples; no other
  string is parsed there.\<close>

definition exParseFloat :: "string \<Rightarrow> jsnum" where
  "exParseFloat s = (if s = ''0'' then Finite 0 else if s = ''2'' then Finite 2
                     else if s = ''3'' then Finite 3 else if s = ''65.5'' then Finite (131 / 2)
                     else NaN)"

definition exLongTranscript :: "TranscriptItem list" where
  "exLongTranscript = [\<lparr>start = ''65.5'', dur = ''2'', itemText = replicate 50000 (CHR ''a'')\<rparr>]"

definition exStoredMessage :: "nat \<Rightarrow> ChatMessage" where
  "exStoredMessage i =
     \<lparr>role = (if even i then User else Assistant), content = ''message '' @ digits i,
      messageId = ''m'' @ digits i, timestamp = 1000 + int i,
      messageVideoId = Some ''dQw4w9WgXcQ'', messageVideoTitle = Some ''YouTube Video dQw4w9WgXcQ''\<rparr>"

definition exSession :: "string \<Rightarrow> nat \<Rightarrow> int \<Rightarrow> ChatSession" where
  "exSession sid n t =
     \<lparr>sessionId = sid, videoId = ''dQw4w9WgXcQ'', videoTitle = ''YouTube Video dQw4w9WgXcQ'',
      videoUrl = ''https://www.youtube.com/watch?v=dQw4w9WgXcQ'',
      transcript = [\<lparr>start = ''0'', dur = ''2'', itemText = ''hello''\<rparr>,
                    \<lparr>start = ''2'', dur = ''3'', itemText = ''world''\<rparr>],
      messages = map exStoredMessage [0..<n], createdAt = 1000, updatedAt = t\<rparr>"

text \<open>A store of three sessions, last touched at times 1000, 5000 and 9000.\<close>

definition exStore :: "(string \<times> ChatSession) list" where
  "exStore = [(''s1'', exSession ''s1'' 2 1000), (''s2'', exSession ''s2'' 2 5000),
              (''s3'', exSession ''s3'' 2 9000)]"

text \<open>A completion service whose call fails.\<close>

definition exFailingCompletion :: "ContextMessage list \<Rightarrow> string option" where
  "exFailingCompletion trimmedMessages = None"

definition exUserMessage :: ChatMessage where
  "exUserMessage =
     \<lparr>role = User, content = ''What is this video about?'', messageId = ''u1'', timestamp = 2000,
      messageVideoId = Some ''dQw4w9WgXcQ'', messageVideoTitle = Some ''YouTube Video dQw4w9WgXcQ''\<rparr>"

definition exTranscript :: "TranscriptItem list" where
  "exTranscript = [\<lparr>start = ''0'', dur = ''2'', itemText = ''hello''\<rparr>,
                   \<lparr>start = ''2'', dur = ''3'', itemText = ''world''\<rparr>]"

definition exSegments :: "TranscriptItem list" where
  "exSegments = [\<lparr>start = ''0'', dur = ''2'', itemText = ''React and more react''\<rparr>,
                 \<lparr>start = ''2'', dur = ''3'', itemText = ''Hello world''\<rparr>,
                 \<lparr>start = ''5'', dur = ''2'', itemText = ''react react react''\<rparr>,
                 \<lparr>start = ''7'', dur = ''2'', itemText = ''one react''\<rparr>]"

definition exReactSegment :: TranscriptItem where
  "exReactSegment = \<lparr>start = ''0'', dur = ''2'', itemText = ''React is a library''\<rparr>"

section \<open>Properties\<close>

subsection \<open>Token budgeter\<close>

lemma estimateTokenCount_ceiling:
  "int (estimateTokenCount c) = \<lceil>real (length c) / 4\<rceil>"
  unfolding estimateTokenCount_def by linarith

lemma foldl_tokens_acc:
  "foldl (\<lambda>total msg. total + estimateTokenCount (content msg)) a ms =
     a + foldl (\<lambda>total msg. total + estimateTokenCount (content msg)) 0 ms"
proof (induction ms arbitrary: a)
  case Nil
  show ?case by simp
next
  case (Cons m ms)
  show ?case
    using Cons.IH [of "a + estimateTokenCount (content m)"]
          Cons.IH [of "estimateTokenCount (content m)"]
    by simp
qed

lemma calculateContextTokens_Nil: "calculateContextTokens [] = 0"
  by (simp add: calculateContextTokens_def)

lemma calculateContextTokens_Cons:
  "calculateContextTokens (m # ms) = estimateTokenCount (content m) + calculateContextTokens ms"
  unfolding calculateContextTokens_def
  using foldl_tokens_acc [of "estimateTokenCount (content m)" ms] by simp

lemma calculateContextTokens_sum:
  "calculateContextTokens ms = sum_list (map (\<lambda>m. estimateTokenCount (content m)) ms)"
  by (induction ms) (simp_all add: calculateContextTokens_Nil calculateContextTokens_Cons)

lemma trimLoop_drop:
  "\<exists>k. k \<le> length rest - 1 \<and> trimLoop s rest b = drop k rest
      \<and> (\<forall>j<k. int (estimateTokenCount (content s) + calculateContextTokens (drop j rest)) > b)
      \<and> (int (estimateTokenCount (content s) + calculateContextTokens (drop k rest)) \<le> b \<or> k = length rest - 1)"
proof (induction s rest b rule: trimLoop.induct)
  case (1 s rest b)
  show ?case
  proof (cases "int (estimateTokenCount (content s) + calculateContextTokens rest) > b \<and> length rest > 1")
    case False
    then have "trimLoop s rest b = rest" by (subst trimLoop.simps) auto
    with False show ?thesis by (intro exI [of _ 0]) auto
  next
    case True
    then have eq: "trimLoop s rest b = trimLoop s (tl rest) b" by (subst trimLoop.simps) auto
    from "1.IH" [OF True] obtain k where k:
      "k \<le> length (tl rest) - 1" "trimLoop s (tl rest) b = drop k (tl rest)"
      "\<forall>j<k. int (estimateTokenCount (content s) + calculateContextTokens (drop j (tl rest))) > b"
      "int (estimateTokenCount (content s) + calculateContextTokens (drop k (tl rest))) \<le> b \<or> k = length (tl rest) - 1"
      by blast
    have d: "drop j (tl rest) = drop (Suc j) rest" for j by (simp add: drop_Suc)
    have "\<forall>j<Suc k. int (estimateTokenCount (content s) + calculateContextTokens (drop j rest)) > b"
    proof (intro allI impI)
      fix j assume "j < Suc k"
      show "int (estimateTokenCount (content s) + calculateContextTokens (drop j rest)) > b"
      proof (cases j)
        case 0 with True show ?thesis by simp
      next
        case (Suc i)
        with \<open>j < Suc k\<close> k(3) d show ?thesis by simp
      qed
    qed
    moreover have "Suc k \<le> length rest - 1" using k(1) True by auto
    moreover have "trimLoop s rest b = drop (Suc k) rest" using eq k(2) d by simp
    moreover have "int (estimateTokenCount (content s) + calculateContextTokens (drop (Suc k) rest)) \<le> b \<or> Suc k = length rest - 1"
      using k(4) d True by auto
    ultimately show ?thesis by blast
  qed
qed


lemma trimLoop_short:
  "length rest \<le> 1 \<Longrightarrow> trimLoop s rest b = rest"
  by (subst trimLoop.simps) auto

lemma trim_Cons:
  "\<exists>k. k \<le> length rest - 1
     \<and> trimContextToTokenLimit (s # rest) b = Inr (s # drop k rest)
     \<and> (\<forall>j<k. int (calculateContextTokens (s # drop j rest)) > b)
     \<and> (int (calculateContextTokens (s # drop k rest)) \<le> b \<or> k = length rest - 1)"
proof (cases "int (calculateContextTokens (s # rest)) \<le> b")
  case True
  then have "trimContextToTokenLimit (s # rest) b = Inr (s # drop 0 rest)"
    by (simp add: trimContextToTokenLimit_def)
  with True show ?thesis by (intro exI [of _ 0]) simp
next
  case False
  then have eq: "trimContextToTokenLimit (s # rest) b = Inr (s # trimLoop s rest b)"
    by (simp add: trimContextToTokenLimit_def)
  from trimLoop_drop [of rest s b] obtain k where
    "k \<le> length rest - 1" "trimLoop s rest b = drop k rest"
    "\<forall>j<k. int (estimateTokenCount (content s) + calculateContextTokens (drop j rest)) > b"
    "int (estimateTokenCount (content s) + calculateContextTokens (drop k rest)) \<le> b \<or> k = length rest - 1"
    by blast
  with eq show ?thesis
    by (intro exI [of _ k]) (simp add: calculateContextTokens_Cons)
qed

lemma estimate_le_total:
  "m \<in> set ms \<Longrightarrow> estimateTokenCount (content m) \<le> calculateContextTokens ms"
  by (induction ms) (auto simp: calculateContextTokens_Cons)

lemma drop_all_but_last:
  "rest \<noteq> [] \<Longrightarrow> drop (length rest - 1) rest = [last rest]"
  by (induction rest) (auto simp: drop_Cons split: nat.splits)

lemma trimContextToTokenLimit_returns:
  assumes "ms \<noteq> [] \<or> 0 \<le> maxTokens"
  shows "\<exists>out. trimContextToTokenLimit ms maxTokens = Inr out"
proof (cases ms)
  case Nil
  with assms show ?thesis
    by (simp add: trimContextToTokenLimit_def calculateContextTokens_Nil)
next
  case (Cons s rest)
  with trim_Cons [of rest s maxTokens] show ?thesis by auto
qed

text \<open>
  Claim C1, as the code has it. The loop stops when one conversation message is left, so
  the most recent message is never dropped. Whenever the first message together with
  some selection \<open>ys\<close> of the later messages that keeps the most recent one fits the
  budget, \<^const>\<open>trimContextToTokenLimit\<close> returns the first message followed by a
  suffix of the later messages whose total estimate is within the budget; it has dropped
  the oldest messages one at a time, and no fewer drops would have fitted.
\<close>

theorem trim_fits_keeping_most_recent:
  assumes sub: "subseq ys rest"
      and keep: "rest \<noteq> [] \<Longrightarrow> ys \<noteq> [] \<and> last ys = last rest"
      and fits: "int (calculateContextTokens (s # ys)) \<le> maxTokens"
  shows "\<exists>k. trimContextToTokenLimit (s # rest) maxTokens = Inr (s # drop k rest)
           \<and> int (calculateContextTokens (s # drop k rest)) \<le> maxTokens
           \<and> (\<forall>j<k. int (calculateContextTokens (s # drop j rest)) > maxTokens)"
proof -
  from trim_Cons [of rest s maxTokens] obtain k where k:
    "k \<le> length rest - 1"
    "trimContextToTokenLimit (s # rest) maxTokens = Inr (s # drop k rest)"
    "\<forall>j<k. int (calculateContextTokens (s # drop j rest)) > maxTokens"
    "int (calculateContextTokens (s # drop k rest)) \<le> maxTokens \<or> k = length rest - 1"
    by blast
  have "int (calculateContextTokens (s # drop k rest)) \<le> maxTokens"
  proof (cases "int (calculateContextTokens (s # drop k rest)) \<le> maxTokens")
    case True
    then show ?thesis .
  next
    case False
    with k(4) have kl: "k = length rest - 1" by simp
    show ?thesis
    proof (cases "rest = []")
      case True
      with sub have "ys = []" by simp
      with fits True show ?thesis by simp
    next
      case nonempty: False
      with keep have "ys \<noteq> []" "last ys = last rest" by simp_all
      then have "last rest \<in> set ys" by (metis last_in_set)
      then have "estimateTokenCount (content (last rest)) \<le> calculateContextTokens ys"
        by (rule estimate_le_total)
      moreover have "drop k rest = [last rest]"
        using kl nonempty drop_all_but_last [of rest] by simp
      ultimately show ?thesis
        using fits by (simp add: calculateContextTokens_Cons calculateContextTokens_Nil)
    qed
  qed
  with k(2,3) show ?thesis by blast
qed

text \<open>
  Claim C5: \<^const>\<open>trimContextToTokenLimit\<close> is idempotent. Whenever it returns a list,
  applying it to that list with the same budget returns the list unchanged.
\<close>

theorem trim_idempotent:
  assumes "trimContextToTokenLimit ms maxTokens = Inr out"
  shows "trimContextToTokenLimit out maxTokens = Inr out"
proof (cases "int (calculateContextTokens out) \<le> maxTokens")
  case True
  then show ?thesis by (simp add: trimContextToTokenLimit_def)
next
  case over: False
  show ?thesis
  proof (cases ms)
    case Nil
    with assms have "out = []"
      by (simp add: trimContextToTokenLimit_def split: if_splits)
    with assms Nil show ?thesis by simp
  next
    case (Cons s rest)
    from trim_Cons [of rest s maxTokens] obtain k where k:
      "trimContextToTokenLimit (s # rest) maxTokens = Inr (s # drop k rest)"
      "int (calculateContextTokens (s # drop k rest)) \<le> maxTokens \<or> k = length rest - 1"
      by blast
    with assms Cons have out: "out = s # drop k rest" by simp
    with over k(2) have "k = length rest - 1" by simp
    then have "length (drop k rest) \<le> 1" by simp
    then have "trimLoop s (drop k rest) maxTokens = drop k rest" by (rule trimLoop_short)
    with over out show ?thesis by (simp add: trimContextToTokenLimit_def)
  qed
qed

text \<open>
  Claim C9: on a non-empty message list \<^const>\<open>trimContextToTokenLimit\<close> returns a
  non-empty list, made of the first input message followed by a contiguous suffix of the
  remaining input messages, each message as it was.
\<close>

theorem trim_first_then_suffix:
  assumes "ms \<noteq> []"
  shows "\<exists>out k. trimContextToTokenLimit ms maxTokens = Inr out
           \<and> out \<noteq> [] \<and> hd out = hd ms \<and> tl out = drop k (tl ms)
           \<and> k < length ms"
proof -
  from assms obtain s rest where eq: "ms = s # rest" by (cases ms) auto
  from trim_Cons [of rest s maxTokens] obtain k where
    "k \<le> length rest - 1" "trimContextToTokenLimit (s # rest) maxTokens = Inr (s # drop k rest)"
    by blast
  with eq show ?thesis by (intro exI [of _ "s # drop k rest"] exI [of _ k]) auto
qed


lemmas ex_defs = exSystem_def exQuestion1_def exAnswer1_def exQuestion2_def exConversation_def

lemma ex_tokens:
  "calculateContextTokens [exSystem, exQuestion2] = 9"
  "calculateContextTokens [exSystem] = 6"
  "calculateContextTokens (exSystem # exConversation) = 21"
  by (simp_all add: calculateContextTokens_def estimateTokenCount_def ex_defs)

lemma ex_trim_10:
  "trimContextToTokenLimit (exSystem # exConversation) 10 = Inr [exSystem, exQuestion2]"
  by (simp add: trimContextToTokenLimit_def trimLoop.simps calculateContextTokens_def
        estimateTokenCount_def ex_defs)

lemma ex_trim_6:
  "trimContextToTokenLimit (exSystem # exConversation) 6 = Inr [exSystem, exQuestion2]"
  by (simp add: trimContextToTokenLimit_def trimLoop.simps calculateContextTokens_def
        estimateTokenCount_def ex_defs)


text \<open>
  Claim C1 as stated fails: with a budget of 6 the system message alone fits, yet the
  loop stops at the system message and the most recent question, which together are over
  the budget.
\<close>

theorem trim_over_budget_counterexample:
  "role (hd (exSystem # exConversation)) = System
   \<and> subseq [exSystem] (exSystem # exConversation)
   \<and> exConversation = [exQuestion1, exAnswer1, exQuestion2]
   \<and> role exQuestion1 \<noteq> System \<and> role exAnswer1 \<noteq> System \<and> role exQuestion2 \<noteq> System
   \<and> int (calculateContextTokens [exSystem]) \<le> 6
   \<and> trimContextToTokenLimit (exSystem # exConversation) 6 = Inr [exSystem, exQuestion2]
   \<and> \<not> int (calculateContextTokens [exSystem, exQuestion2]) \<le> 6"
proof -
  have "role (hd (exSystem # exConversation)) = System" by (simp add: ex_defs)
  moreover have "subseq [exSystem] (exSystem # exConversation)" by simp
  moreover have "exConversation = [exQuestion1, exAnswer1, exQuestion2]"
    by (simp add: exConversation_def)
  moreover have "role exQuestion1 \<noteq> System \<and> role exAnswer1 \<noteq> System \<and> role exQuestion2 \<noteq> System"
    by (simp add: ex_defs)
  ultimately show ?thesis by (simp add: ex_tokens ex_trim_6)
qed

theorem trim_fits_keeping_most_recent_witness:
  "subseq [exQuestion2] exConversation
   \<and> last [exQuestion2] = last exConversation
   \<and> int (calculateContextTokens [exSystem, exQuestion2]) \<le> 10
   \<and> trimContextToTokenLimit (exSystem # exConversation) 10 = Inr [exSystem, exQuestion2]
   \<and> (\<exists>k. trimContextToTokenLimit (exSystem # exConversation) 10 = Inr (exSystem # drop k exConversation)
           \<and> int (calculateContextTokens (exSystem # drop k exConversation)) \<le> 10
           \<and> (\<forall>j<k. int (calculateContextTokens (exSystem # drop j exConversation)) > 10))"
proof -
  have sub: "subseq [exQuestion2] exConversation" by (simp add: exConversation_def)
  have keep: "[exQuestion2] \<noteq> [] \<and> last [exQuestion2] = last exConversation"
    by (simp add: exConversation_def)
  have fits: "int (calculateContextTokens [exSystem, exQuestion2]) \<le> 10"
    by (simp add: ex_tokens)
  from trim_fits_keeping_most_recent [OF sub keep fits] sub keep fits ex_trim_10
  show ?thesis by simp
qed

theorem trim_idempotent_witness:
  "trimContextToTokenLimit (exSystem # exConversation) 10 = Inr [exSystem, exQuestion2]
   \<and> trimContextToTokenLimit [exSystem, exQuestion2] 10 = Inr [exSystem, exQuestion2]"
  using trim_idempotent [OF ex_trim_10] ex_trim_10 by simp

theorem trim_first_then_suffix_witness:
  "exSystem # exConversation \<noteq> []
   \<and> (\<exists>out k. trimContextToTokenLimit (exSystem # exConversation) 10 = Inr out
           \<and> out \<noteq> [] \<and> hd out = hd (exSystem # exConversation)
           \<and> tl out = drop k (tl (exSystem # exConversation))
           \<and> k < length (exSystem # exConversation))"
proof -
  have ne: "exSystem # exConversation \<noteq> []" by simp
  from trim_first_then_suffix [OF ne, of 10] ne show ?thesis by blast
qed


subsection \<open>Context builder\<close>

lemma length_truncationMarker: "length truncationMarker = 43"
  by (simp add: truncationMarker_def newline_def)

text \<open>
  Claim C10: the string returned by \<^const>\<open>formatTranscriptContext\<close> has at most 50,000
  characters. When the rendered transcript is longer than that it is cut to 49,900
  characters and the truncation marker, 43 characters long, is appended, which gives
  49,943 characters.
\<close>

theorem formatTranscriptContext_bounded:
  "length (formatTranscriptContext parseFloat items) \<le> 50000
   \<and> length truncationMarker = 43
   \<and> (50000 < length (renderTranscript parseFloat items) \<longrightarrow>
        formatTranscriptContext parseFloat items
          = take 49900 (renderTranscript parseFloat items) @ truncationMarker
        \<and> length (formatTranscriptContext parseFloat items) = 49943)"
  by (simp add: formatTranscriptContext_def MAX_TRANSCRIPT_CHARS_def Let_def
        length_truncationMarker)


lemma ex_stamp: "lineTimestamp exParseFloat \<lparr>start = ''65.5'', dur = ''2'', itemText = x\<rparr> = ''1:05''"
  by (simp add: lineTimestamp_def exParseFloat_def jsTrunc_def intToString_def digits.simps padStart_def)

lemma ex_render_length: "length (renderTranscript exParseFloat exLongTranscript) = 50007"
  by (simp add: renderTranscript_def exLongTranscript_def ex_stamp)

theorem formatTranscriptContext_bounded_witness:
  "50000 < length (renderTranscript exParseFloat exLongTranscript)
   \<and> length (formatTranscriptContext exParseFloat exLongTranscript) = 49943
   \<and> formatTranscriptContext exParseFloat exLongTranscript
        = take 49900 (renderTranscript exParseFloat exLongTranscript) @ truncationMarker"
  using formatTranscriptContext_bounded [of exParseFloat exLongTranscript]
  by (simp add: ex_render_length)

text \<open>
  Claim C6: with \<open>includeSystemPrompt = true\<close>, \<^const>\<open>buildConversationContext\<close>
  returns the system message first, followed by the most recent 20 stored messages (all of
  them when there are fewer), each reduced to its role and content, in their stored
  order. For 25 stored messages these are the messages from the sixth on. When no stored
  message has the system role, the first message is the only system message.
\<close>

theorem buildConversationContext_recent:
  "buildConversationContext parseFloat session True
     = \<lparr>role = System, content = systemContent parseFloat session\<rparr>
       # map (\<lambda>msg. \<lparr>role = role msg, content = content msg\<rparr>)
             (drop (length (messages session) - 20) (messages session))
   \<and> length (buildConversationContext parseFloat session True)
       = 1 + min 20 (length (messages session))
   \<and> (length (messages session) = 25 \<longrightarrow>
        buildConversationContext parseFloat session True
          = \<lparr>role = System, content = systemContent parseFloat session\<rparr>
            # map (\<lambda>msg. \<lparr>role = role msg, content = content msg\<rparr>) (drop 5 (messages session)))
   \<and> ((\<forall>msg \<in> set (messages session). role msg \<noteq> System) \<longrightarrow>
        filter (\<lambda>m. role m = System) (buildConversationContext parseFloat session True)
          = [\<lparr>role = System, content = systemContent parseFloat session\<rparr>])"
proof -
  let ?sys = "\<lparr>role = System, content = systemContent parseFloat session\<rparr>"
  let ?proj = "\<lambda>msg::ChatMessage. \<lparr>role = role msg, content = content msg\<rparr>"
  have shape: "buildConversationContext parseFloat session True
     = ?sys # map ?proj (drop (length (messages session) - 20) (messages session))"
    by (simp add: buildConversationContext_def sliceLast_def MAX_CONTEXT_MESSAGES_def)
  have len: "length (buildConversationContext parseFloat session True)
       = 1 + min 20 (length (messages session))"
    unfolding shape by auto
  have nosys: "filter (\<lambda>m. role m = System) (map ?proj xs) = []"
    if "\<forall>msg \<in> set xs. role msg \<noteq> System" for xs
    using that by (induction xs) auto
  have "filter (\<lambda>m. role m = System) (buildConversationContext parseFloat session True) = [?sys]"
    if h: "\<forall>msg \<in> set (messages session). role msg \<noteq> System"
  proof -
    have "\<forall>msg \<in> set (drop (length (messages session) - 20) (messages session)). role msg \<noteq> System"
      using h by (meson in_set_dropD)
    from nosys [OF this] show ?thesis unfolding shape by simp
  qed
  with shape len show ?thesis by simp
qed

theorem buildConversationContext_recent_witness:
  "length (messages (exSession ''s1'' 25 1000)) = 25
   \<and> list_all (\<lambda>msg. role msg \<noteq> System) (messages (exSession ''s1'' 25 1000))
   \<and> length (buildConversationContext exParseFloat (exSession ''s1'' 25 1000) True) = 21
   \<and> buildConversationContext exParseFloat (exSession ''s1'' 25 1000) True
        = \<lparr>role = System, content = systemContent exParseFloat (exSession ''s1'' 25 1000)\<rparr>
          # map (\<lambda>msg. \<lparr>role = role msg, content = content msg\<rparr>)
                (map exStoredMessage [5..<25])
   \<and> filter (\<lambda>m. role m = System) (buildConversationContext exParseFloat (exSession ''s1'' 25 1000) True)
        = [\<lparr>role = System, content = systemContent exParseFloat (exSession ''s1'' 25 1000)\<rparr>]"
proof -
  note inst = buildConversationContext_recent [of exParseFloat "exSession ''s1'' 25 1000"]
  have l: "length (messages (exSession ''s1'' 25 1000)) = 25" by (simp add: exSession_def)
  have "role (exStoredMessage i) \<noteq> System" for i by (simp add: exStoredMessage_def)
  then have r: "\<forall>msg \<in> set (messages (exSession ''s1'' 25 1000)). role msg \<noteq> System"
    unfolding exSession_def by (simp only: ChatSession.simps set_map) blast
  have d: "drop 5 (messages (exSession ''s1'' 25 1000)) = map exStoredMessage [5..<25]"
    unfolding exSession_def by (simp only: ChatSession.simps drop_map drop_upt) simp
  from inst have "length (buildConversationContext exParseFloat (exSession ''s1'' 25 1000) True)
       = 1 + min 20 (length (messages (exSession ''s1'' 25 1000)))" by (rule conjunct1 [OF conjunct2])
  then have n: "length (buildConversationContext exParseFloat (exSession ''s1'' 25 1000) True) = 21"
    by (simp add: l)
  from inst l have "buildConversationContext exParseFloat (exSession ''s1'' 25 1000) True
          = \<lparr>role = System, content = systemContent exParseFloat (exSession ''s1'' 25 1000)\<rparr>
            # map (\<lambda>msg. \<lparr>role = role msg, content = content msg\<rparr>) (drop 5 (messages (exSession ''s1'' 25 1000)))"
    by blast
  then have s: "buildConversationContext exParseFloat (exSession ''s1'' 25 1000) True
        = \<lparr>role = System, content = systemContent exParseFloat (exSession ''s1'' 25 1000)\<rparr>
          # map (\<lambda>msg. \<lparr>role = role msg, content = content msg\<rparr>)
                (map exStoredMessage [5..<25])"
    by (simp only: d)
  from inst r have f: "filter (\<lambda>m. role m = System) (buildConversationContext exParseFloat (exSession ''s1'' 25 1000) True)
        = [\<lparr>role = System, content = systemContent exParseFloat (exSession ''s1'' 25 1000)\<rparr>]"
    by blast
  from r have r': "list_all (\<lambda>msg. role msg \<noteq> System) (messages (exSession ''s1'' 25 1000))"
    by (simp only: list_all_iff)
  from l r' n s f show ?thesis by (intro conjI)
qed


subsection \<open>Session lifecycle\<close>

lemma cleanupLoop_general:
  "cleanupLoop entries now maxAge sessions cleanedCount =
     (filter (\<lambda>entry. fst entry \<notin> fst ` {e \<in> set entries. updatedAt (snd e) < now - maxAge}) sessions,
      cleanedCount + length (filter (\<lambda>e. updatedAt (snd e) < now - maxAge) entries))"
proof (induction entries arbitrary: sessions cleanedCount)
  case Nil
  show ?case by simp
next
  case (Cons entry entries)
  obtain key session where e: "entry = (key, session)" by (cases entry)
  show ?case
  proof (cases "now - updatedAt session > maxAge")
    case True
    then have old: "updatedAt session < now - maxAge" by simp
    have "filter (\<lambda>entry. fst entry \<notin> fst ` {e \<in> set entries. updatedAt (snd e) < now - maxAge})
            (deleteSession key sessions)
        = filter (\<lambda>entry. fst entry \<notin> fst ` {e \<in> set ((key, session) # entries). updatedAt (snd e) < now - maxAge})
            sessions"
    proof -
      have "{e \<in> set ((key, session) # entries). updatedAt (snd e) < now - maxAge}
          = insert (key, session) {e \<in> set entries. updatedAt (snd e) < now - maxAge}"
        using old by auto
      then show ?thesis
        unfolding deleteSession_def filter_filter by (intro filter_cong) auto
    qed
    with True old show ?thesis
      unfolding e by (simp add: Cons.IH Let_def)
  next
    case False
    then have young: "\<not> updatedAt session < now - maxAge" by simp
    have "{e \<in> set ((key, session) # entries). updatedAt (snd e) < now - maxAge}
        = {e \<in> set entries. updatedAt (snd e) < now - maxAge}"
      using young by auto
    with False young show ?thesis
      unfolding e by (simp add: Cons.IH Let_def)
  qed
qed

text \<open>
  Claim C8: for every session store (a \<^verbatim>\<open>Map\<close>, so with one entry per key), maximum
  age and current time, \<^const>\<open>cleanupOldSessions\<close> leaves in the store exactly the entries
  whose \<open>updatedAt\<close> is not strictly older than \<open>now - maxAge\<close>, unchanged and in
  their order, and returns the number of entries that were strictly older, which are
  the ones deleted.
\<close>

theorem cleanupOldSessions_exact:
  assumes "distinct (map fst sessions)"
  shows "cleanupOldSessions sessions maxAge now =
           (filter (\<lambda>entry. \<not> updatedAt (snd entry) < now - maxAge) sessions,
            length (filter (\<lambda>entry. updatedAt (snd entry) < now - maxAge) sessions))"
proof -
  have "filter (\<lambda>entry. fst entry \<notin> fst ` {e \<in> set sessions. updatedAt (snd e) < now - maxAge}) sessions
      = filter (\<lambda>entry. \<not> updatedAt (snd entry) < now - maxAge) sessions"
  proof (intro filter_cong refl)
    fix entry assume m: "entry \<in> set sessions"
    have "fst entry \<in> fst ` {e \<in> set sessions. updatedAt (snd e) < now - maxAge}
            \<longleftrightarrow> updatedAt (snd entry) < now - maxAge"
    proof
      assume "fst entry \<in> fst ` {e \<in> set sessions. updatedAt (snd e) < now - maxAge}"
      then obtain e where e: "e \<in> set sessions" "updatedAt (snd e) < now - maxAge" "fst e = fst entry"
        by auto
      from assms e(1) m e(3) have "e = entry"
        by (metis eq_key_imp_eq_value prod.collapse)
      with e(2) show "updatedAt (snd entry) < now - maxAge" by simp
    next
      assume "updatedAt (snd entry) < now - maxAge"
      with m show "fst entry \<in> fst ` {e \<in> set sessions. updatedAt (snd e) < now - maxAge}" by auto
    qed
    then show "(fst entry \<notin> fst ` {e \<in> set sessions. updatedAt (snd e) < now - maxAge})
                 = (\<not> updatedAt (snd entry) < now - maxAge)" by simp
  qed
  then show ?thesis
    by (simp add: cleanupOldSessions_def cleanupLoop_general)
qed


lemma exSession_fields:
  "updatedAt (exSession sid n t) = t"
  "sessionId (exSession sid n t) = sid"
  "videoId (exSession sid n t) = ''dQw4w9WgXcQ''"
  "videoTitle (exSession sid n t) = ''YouTube Video dQw4w9WgXcQ''"
  "messages (exSession sid n t) = map exStoredMessage [0..<n]"
  by (simp_all add: exSession_def)

theorem cleanupOldSessions_exact_witness:
  "distinct (map fst exStore)
   \<and> cleanupOldSessions exStore 5000 10000
       = ([(''s2'', exSession ''s2'' 2 5000), (''s3'', exSession ''s3'' 2 9000)], 1)"
proof -
  have d: "distinct (map fst exStore)" by (simp add: exStore_def)
  from cleanupOldSessions_exact [OF d, of 5000 10000] d show ?thesis
    by (simp add: exStore_def exSession_fields)
qed

subsection \<open>Chat turn\<close>

lemma chatTurn_completion_fails:
  assumes "sessionId session \<noteq> []" "videoId session \<noteq> []"
      and "\<And>trimmedMessages. completion trimmedMessages = None"
  shows "chatTurn parseFloat completion session message userId t1 assistantId t2 t3 =
           (session\<lparr>messages := messages session @
               [\<lparr>role = User, content = message, messageId = userId, timestamp = t1,
                 messageVideoId = Some (videoId session),
                 messageVideoTitle = Some (videoTitle session)\<rparr>]\<rparr>,
            CompletionFailed)"
proof -
  let ?s1 = "session\<lparr>messages := messages session @
               [\<lparr>role = User, content = message, messageId = userId, timestamp = t1,
                 messageVideoId = Some (videoId session),
                 messageVideoTitle = Some (videoTitle session)\<rparr>]\<rparr>"
  obtain sys hist where b: "buildConversationContext parseFloat ?s1 True = sys # hist"
    by (simp add: buildConversationContext_def)
  from trim_Cons [of hist sys 12000] obtain out where
    t: "trimContextToTokenLimit (sys # hist) 12000 = Inr out" by blast
  have v: "fst (validateChatSession ?s1)" using assms(1,2)
    by (simp add: validateChatSession_def)
  show ?thesis
    unfolding chatTurn_def Let_def using v b t assms(3) by simp
qed

text \<open>
  Claim C2 says that \<open>updatedAt\<close> is updated on every message append, the append of
  the user message included. The handler sets \<open>updatedAt\<close> only after it has appended
  the assistant reply. In a turn at time 2000 on a session last updated at time 1000,
  when the completion call fails, the user message is in the session and \<open>updatedAt\<close>
  is still 1000.
\<close>

theorem chatTurn_failed_completion_keeps_updatedAt:
  "chatTurn exParseFloat exFailingCompletion (exSession ''s1'' 0 1000)
       ''What is this video about?'' ''u1'' 2000 ''a1'' 2001 2002
     = ((exSession ''s1'' 0 1000)\<lparr>messages := [exUserMessage]\<rparr>, CompletionFailed)
   \<and> updatedAt (fst (chatTurn exParseFloat exFailingCompletion (exSession ''s1'' 0 1000)
       ''What is this video about?'' ''u1'' 2000 ''a1'' 2001 2002)) = 1000
   \<and> timestamp exUserMessage = 2000"
proof -
  have "chatTurn exParseFloat exFailingCompletion (exSession ''s1'' 0 1000)
       ''What is this video about?'' ''u1'' 2000 ''a1'' 2001 2002
     = ((exSession ''s1'' 0 1000)\<lparr>messages := [exUserMessage]\<rparr>, CompletionFailed)"
    by (subst chatTurn_completion_fails)
       (simp_all add: exSession_fields exUserMessage_def exFailingCompletion_def)
  then show ?thesis by (simp add: exSession_fields exUserMessage_def)
qed

lemma chatTurn_replied:
  assumes "chatTurn parseFloat completion session message userId t1 assistantId t2 t3 = (session', Replied reply)"
  shows "updatedAt session' = t3 \<and> length (messages session') = length (messages session) + 2"
  using assms unfolding chatTurn_def Let_def
  by (auto split: if_splits sum.splits option.splits)

lemma chatTurn_not_replied:
  assumes "chatTurn parseFloat completion session message userId t1 assistantId t2 t3 = (session', result)"
      and "\<forall>reply. result \<noteq> Replied reply"
  shows "updatedAt session' = updatedAt session \<and> length (messages session') = length (messages session) + 1"
  using assms unfolding chatTurn_def Let_def
  by (auto split: if_splits sum.splits option.splits)


subsection \<open>Relevance scorer\<close>

lemma scoreSegments_shape:
  "scoreSegments matchCount queryLower queryWords segs i = Inr scored \<Longrightarrow>
     map segment scored = segs \<and> map index scored = [i..<i + length segs]
     \<and> (\<forall>item \<in> set scored.
           segmentScore matchCount queryLower queryWords (segment item) = Inr (score item))"
proof (induction segs arbitrary: i scored)
  case Nil
  then show ?case by simp
next
  case (Cons seg segs)
  from Cons.prems obtain sc rest where
    r: "scoreSegments matchCount queryLower queryWords segs (Suc i) = Inr rest"
    and s: "scored = \<lparr>segment = seg, score = sc, index = i\<rparr> # rest"
    and h: "segmentScore matchCount queryLower queryWords seg = Inr sc"
    by (auto split: sum.splits)
  from Cons.IH [OF r] s h show ?case by (simp add: upt_rec)
qed

lemma sort_by_index_is_filter:
  fixes scored sel :: "ScoredSegment list"
  assumes sorted: "sorted_wrt (<) (map index scored)"
      and sub: "set sel \<subseteq> set scored"
      and dist: "distinct (map index sel)"
  shows "sort_key index sel = filter (\<lambda>item. item \<in> set sel) scored"
proof -
  let ?A = "sort_key index sel"
  let ?B = "filter (\<lambda>item. item \<in> set sel) scored"
  from sorted have s: "sorted (map index scored)" and d: "distinct (map index scored)"
    by (simp_all add: strict_sorted_iff)
  from d have inj: "inj_on index (set scored)" by (simp add: distinct_map)
  have "sorted (map index ?A)" by simp
  moreover have "distinct (map index ?A)"
    using dist by (metis distinct_map distinct_sort set_sort)
  moreover have "sorted (map index ?B)" using s by (rule sorted_filter)
  moreover have "distinct (map index ?B)" using d by (rule distinct_map_filter)
  moreover have "set (map index ?A) = set (map index ?B)" using sub by auto
  ultimately have "map index ?A = map index ?B" by (rule sorted_distinct_set_unique)
  moreover have "inj_on index (set ?A \<union> set ?B)"
    using inj sub by (auto intro: inj_on_subset)
  ultimately show ?thesis by (rule map_inj_on)
qed

lemma distinct_map_take: "distinct (map f xs) \<Longrightarrow> distinct (map f (take n xs))"
  by (simp add: take_map [symmetric])

lemma distinct_map_sort_key: "distinct (map f xs) \<Longrightarrow> distinct (map f (sort_key k xs))"
  by (metis distinct_map distinct_sort set_sort)

lemma subseq_take_left: "subseq (take n xs) xs"
  by (induction xs arbitrary: n) (auto simp: take_Cons split: nat.splits)

lemma countKeywordMatches_returns:
  assumes "\<forall>word s. \<exists>n. matchCount word s = Inr n"
  shows "\<exists>n. countKeywordMatches matchCount queryWords segmentText sc = Inr n"
proof (induction queryWords arbitrary: sc)
  case Nil
  show ?case by simp
next
  case (Cons word queryWords)
  from assms obtain m where "matchCount word segmentText = Inr m" by blast
  with Cons.IH [of "sc + m"] show ?case by simp
qed

lemma scoreSegments_returns:
  assumes "\<forall>word s. \<exists>n. matchCount word s = Inr n"
  shows "\<exists>scored. scoreSegments matchCount queryLower queryWords segs i = Inr scored"
proof (induction segs arbitrary: i)
  case Nil
  show ?case by simp
next
  case (Cons seg segs)
  from countKeywordMatches_returns [OF assms]
  obtain n where "countKeywordMatches matchCount queryWords (toLowerCase (itemText seg)) 0 = Inr n"
    by blast
  then obtain sc where "segmentScore matchCount queryLower queryWords seg = Inr sc"
    by (simp add: segmentScore_def)
  moreover from Cons.IH [of "Suc i"] obtain scored where
    "scoreSegments matchCount queryLower queryWords segs (Suc i) = Inr scored" by blast
  ultimately show ?case by simp
qed

lemma findRelevant_returns:
  assumes "\<forall>word s. \<exists>n. matchCount word s = Inr n"
  shows "\<exists>result. findRelevantTranscriptSegments matchCount query items maxSegments = Inr result"
proof -
  from scoreSegments_returns [OF assms] obtain scored where
    "scoreSegments matchCount (toLowerCase query) (queryWordsOf (toLowerCase query)) items 0 = Inr scored"
    by blast
  then show ?thesis by (simp add: findRelevantTranscriptSegments_def Let_def)
qed

text \<open>
  Claim C7: whenever \<^const>\<open>findRelevantTranscriptSegments\<close> returns, for any query,
  transcript and \<open>maxSegments\<close> and whatever the regular-expression engine counts, it
  returns at most \<open>maxSegments\<close> segments, and they are a subsequence of the transcript:
  the returned segments are in their transcript order. When the query has words, every
  returned segment has a positive score, so there are fewer segments, or none, when few
  or none score positively.
\<close>

theorem findRelevant_bounded_in_order:
  assumes "findRelevantTranscriptSegments matchCount query items maxSegments = Inr result"
  shows "length result \<le> maxSegments \<and> subseq result items
         \<and> (queryWordsOf (toLowerCase query) \<noteq> [] \<longrightarrow>
              (\<forall>seg \<in> set result. \<exists>sc. 0 < sc \<and>
                 segmentScore matchCount (toLowerCase query) (queryWordsOf (toLowerCase query)) seg
                   = Inr sc))"
proof (cases "queryWordsOf (toLowerCase query) = []")
  case True
  with assms have "result = take maxSegments items"
    by (simp add: findRelevantTranscriptSegments_def Let_def)
  with True show ?thesis by (simp add: subseq_take_left)
next
  case False
  let ?ql = "toLowerCase query"
  let ?qw = "queryWordsOf ?ql"
  from assms False obtain scored where
    sc: "scoreSegments matchCount ?ql ?qw items 0 = Inr scored"
    and res: "result = map segment (sort_key index (take maxSegments
                (sort_key (\<lambda>item. - int (score item)) (filter (\<lambda>item. score item > 0) scored))))"
    by (auto simp: findRelevantTranscriptSegments_def Let_def split: sum.splits)
  let ?sel = "take maxSegments
                (sort_key (\<lambda>item. - int (score item)) (filter (\<lambda>item. score item > 0) scored))"
  from scoreSegments_shape [OF sc] have seg: "map segment scored = items"
    and idx: "map index scored = [0..<length items]"
    and scores: "\<forall>item \<in> set scored. segmentScore matchCount ?ql ?qw (segment item) = Inr (score item)"
    by simp_all
  from idx have sorted: "sorted_wrt (<) (map index scored)" by simp
  then have d: "distinct (map index scored)" by (simp add: strict_sorted_iff)
  have sub: "set ?sel \<subseteq> set scored"
    by (auto dest: in_set_takeD)
  have pos: "\<forall>item \<in> set ?sel. 0 < score item"
    by (auto dest: in_set_takeD)
  have dist: "distinct (map index ?sel)"
    using d by (intro distinct_map_take distinct_map_sort_key distinct_map_filter)
  from sort_by_index_is_filter [OF sorted sub dist] res
  have "result = map segment (filter (\<lambda>item. item \<in> set ?sel) scored)" by simp
  then have "subseq result (map segment scored)"
    by (simp add: subseq_map)
  with seg have "subseq result items" by simp
  moreover have "length result \<le> maxSegments" using res by simp
  moreover have "\<forall>seg \<in> set result. \<exists>sc. 0 < sc \<and> segmentScore matchCount ?ql ?qw seg = Inr sc"
  proof
    fix seg assume "seg \<in> set result"
    with res obtain item where "item \<in> set ?sel" "seg = segment item" by auto
    with sub pos scores show "\<exists>sc. 0 < sc \<and> segmentScore matchCount ?ql ?qw seg = Inr sc"
      by blast
  qed
  ultimately show ?thesis by simp
qed

lemmas scorer_defs = queryWordsOf_def toLowerCase_def lowerChar_def isSpace_def
  segmentScore_def fragmentMatchCount_def regexMatchCount_def atomOf_def consPattern_def
  atomMatches_def

lemma ex_query_words:
  "queryWordsOf ''react'' = [''react'']"
  "queryWordsOf ''what is react?'' = [''what'', ''react?'']"
  "queryWordsOf ''why ???'' = [''why'', ''???'']"
  by (simp_all add: scorer_defs)

lemma ex_lower:
  "toLowerCase ''react'' = ''react''"
  "toLowerCase ''What is React?'' = ''what is react?''"
  "toLowerCase ''why ???'' = ''why ???''"
  by (simp_all add: scorer_defs)

lemma ex_scores:
  "segmentScore fragmentMatchCount ''react'' [''react'']
     \<lparr>start = ''0'', dur = ''2'', itemText = ''React and more react''\<rparr> = Inr 7"
  "segmentScore fragmentMatchCount ''react'' [''react'']
     \<lparr>start = ''2'', dur = ''3'', itemText = ''Hello world''\<rparr> = Inr 0"
  "segmentScore fragmentMatchCount ''react'' [''react'']
     \<lparr>start = ''5'', dur = ''2'', itemText = ''react react react''\<rparr> = Inr 8"
  "segmentScore fragmentMatchCount ''react'' [''react'']
     \<lparr>start = ''7'', dur = ''2'', itemText = ''one react''\<rparr> = Inr 6"
  by (simp_all add: scorer_defs)

lemma ex_react_question:
  "segmentScore fragmentMatchCount ''what is react?'' [''what'', ''react?''] exReactSegment = Inr 1"
  "segmentScore fragmentMatchCount ''why ???'' [''why'', ''???''] exReactSegment = Inl SyntaxError"
  "statedScore ''what is react?'' [''what'', ''react?''] (toLowerCase (itemText exReactSegment)) = 0"
  by (simp_all add: scorer_defs exReactSegment_def statedScore_def)

lemma ex_find_react:
  "findRelevantTranscriptSegments fragmentMatchCount ''react'' exSegments 2
     = Inr [\<lparr>start = ''0'', dur = ''2'', itemText = ''React and more react''\<rparr>,
            \<lparr>start = ''5'', dur = ''2'', itemText = ''react react react''\<rparr>]"
  by (simp add: findRelevantTranscriptSegments_def Let_def ex_query_words ex_lower exSegments_def ex_scores)

theorem findRelevant_bounded_in_order_witness:
  "findRelevantTranscriptSegments fragmentMatchCount ''react'' exSegments 2
     = Inr [\<lparr>start = ''0'', dur = ''2'', itemText = ''React and more react''\<rparr>,
            \<lparr>start = ''5'', dur = ''2'', itemText = ''react react react''\<rparr>]
   \<and> subseq [\<lparr>start = ''0'', dur = ''2'', itemText = ''React and more react''\<rparr>,
              \<lparr>start = ''5'', dur = ''2'', itemText = ''react react react''\<rparr>] exSegments
   \<and> length exSegments = 4"
  using findRelevant_bounded_in_order [OF ex_find_react] ex_find_react
  by (simp add: exSegments_def)

text \<open>
  Claim C3 states the score as a count of substring occurrences of each query token.
  The code hands each token to \<^verbatim>\<open>new RegExp\<close> as it is, so a token is read as a
  pattern. For the query \<^verbatim>\<open>What is React?\<close> the token \<^verbatim>\<open>react?\<close> does not occur in
  \<^verbatim>\<open>react is a library\<close>, and the stated score is 0; as a pattern it matches
  \<^verbatim>\<open>react\<close>, the score is 1 and the segment is returned. For the query
  \<^verbatim>\<open>why ???\<close> the token \<^verbatim>\<open>???\<close> is not a pattern and the call throws.
\<close>

theorem relevance_score_reads_token_as_pattern:
  "queryWordsOf (toLowerCase ''What is React?'') = [''what'', ''react?'']
   \<and> segmentScore fragmentMatchCount (toLowerCase ''What is React?'')
         (queryWordsOf (toLowerCase ''What is React?'')) exReactSegment = Inr 1
   \<and> statedScore (toLowerCase ''What is React?'') (queryWordsOf (toLowerCase ''What is React?''))
         (toLowerCase (itemText exReactSegment)) = 0
   \<and> findRelevantTranscriptSegments fragmentMatchCount ''What is React?'' [exReactSegment] 10
        = Inr [exReactSegment]
   \<and> findRelevantTranscriptSegments fragmentMatchCount ''why ???'' [exReactSegment] 10
        = Inl SyntaxError"
  by (simp add: findRelevantTranscriptSegments_def Let_def ex_query_words ex_lower ex_react_question)

subsection \<open>Transcript formatter\<close>

lemma formatTime_under_an_hour:
  assumes "0 \<le> q" "q < 3600"
  shows "formatTime (Finite q)
           = padStart 2 (CHR ''0'') (toStringNum (mathFloor (jsDiv (jsRem (Finite q) 3600) 60)))
             @ '':'' @ padStart 6 (CHR ''0'') (toFixed3 (jsRem (Finite q) 60))"
proof -
  from assms have "\<lfloor>q / 3600\<rfloor> = 0" by (simp add: floor_eq_iff)
  then show ?thesis by (simp add: formatTime_def Let_def)
qed

lemmas format_defs = formatTime_def jsTrunc_def intToString_def digits.simps padStart_def
  fixed3_def trimString_def isSpace_def

lemma replicate_numeral_unfold:
  "replicate (numeral k) x = x # replicate (pred_numeral k) x"
  by (simp add: numeral_eq_Suc)

lemma ex_formatted:
  "formatTranscriptData exParseFloat exTranscript =
     [\<lparr>startSeconds = Finite 0, endSeconds = Finite 2, durationSeconds = Finite 2,
       formattedText = ''hello'', startTime = Some ''00:00.000'', endTime = Some ''00:02.000''\<rparr>,
      \<lparr>startSeconds = Finite 2, endSeconds = Finite 5, durationSeconds = Finite 3,
       formattedText = ''world'', startTime = Some ''00:02.000'', endTime = Some ''00:05.000''\<rparr>]"
  by (simp add: formatTranscriptData_def Let_def exTranscript_def exParseFloat_def format_defs
        replicate_numeral_unfold)

text \<open>
  Claim C4: for the transcript of the two segments \<^verbatim>\<open>hello\<close> (0 to 2 seconds) and
  \<^verbatim>\<open>world\<close> (2 to 5 seconds) the \<^verbatim>\<open>text_only\<close> rendering is \<^verbatim>\<open>hello world\<close>, as
  stated. The time line of the first \<^verbatim>\<open>srt\<close> block is stated as
  \<^verbatim>\<open>00:00:00,000 --> 00:00:02,000\<close>; \<^const>\<open>formatTime\<close> leaves the hours out below one
  hour, and the code renders \<^verbatim>\<open>00:00,000 --> 00:02,000\<close>.
\<close>

theorem srt_times_lack_hours:
  "formatTranscriptOutput (formatTranscriptData exParseFloat exTranscript) TEXT_ONLY
     = Text ''hello world''
   \<and> formatTranscriptOutput (formatTranscriptData exParseFloat exTranscript) SRT
     = Text (''1'' @ newline @ ''00:00,000 --> 00:02,000'' @ newline @ ''hello'' @ newline
             @ newline
             @ ''2'' @ newline @ ''00:02,000 --> 00:05,000'' @ newline @ ''world'' @ newline)"
  by (simp add: ex_formatted formatTranscriptOutput_def commaTimeString_def enumerate_eq_zip
        digits.simps upt_rec)


end
